theory Spec2Isabelle
  imports Complex_Main
begin

section \<open>Python values, exceptions and the socket\<close>

text \<open>
  The library is Python 2 code (\<^verbatim>\<open>except Exception, e\<close>, \<^verbatim>\<open>print e\<close>,
  \<^verbatim>\<open>xrange\<close>). Python integers are \<open>int\<close>, Python floats are \<open>real\<close>
  (their exact values; no statement below depends on rounding), strings are \<open>string\<close>.
  An exception is a value of \<open>pyerror\<close>; a statement that runs on the socket returns the
  exception it raised, if any, together with the session as it is at that moment.
\<close>

datatype pyerror = IndexError | TypeError | ValueError | AttributeError | IOError | SocketError

text \<open>What \<^verbatim>\<open>s.connect\<close> can do: return, or raise an exception that has an
  \<^verbatim>\<open>errno\<close> attribute (\<^verbatim>\<open>socket.error\<close>, whose \<^verbatim>\<open>errno\<close> may be
  \<^verbatim>\<open>None\<close>), or raise one that has no such attribute (\<^verbatim>\<open>OverflowError\<close> for a
  port outside 0-65535, \<^verbatim>\<open>TypeError\<close> for a port that is no integer).\<close>

datatype exn = WithErrno "int option" | NoErrno

datatype conn_outcome = ConnectReturns | ConnectRaises exn

text \<open>Everything a session does that can be observed from outside, in order.\<close>

datatype event =
    WriteScript string int
  | Popen string
  | Sleep nat
  | Connect string int
  | Print exn
  | Sent string
  | Close

record session =
  connected :: bool
  closed :: bool
  trace :: "event list"

type_synonym stmt = "session \<Rightarrow> pyerror option \<times> session"

definition skip :: stmt where
  "skip s = (None, s)"

definition raise :: "pyerror \<Rightarrow> stmt" where
  "raise e s = (Some e, s)"

definition emit :: "event \<Rightarrow> stmt" where
  "emit ev s = (None, s\<lparr>trace := trace s @ [ev]\<rparr>)"

text \<open>A sequence of statements: the first exception ends it.\<close>

fun block :: "stmt list \<Rightarrow> stmt" where
  "block [] s = (None, s)"
| "block (c # cs) s =
     (case c s of
        (None, s') \<Rightarrow> block cs s'
      | (Some e, s') \<Rightarrow> (Some e, s'))"

text \<open>\<^verbatim>\<open>for x in xs: body\<close>\<close>

definition for_each :: "'a list \<Rightarrow> ('a \<Rightarrow> stmt) \<Rightarrow> stmt" where
  "for_each xs body = block (map body xs)"

text \<open>Evaluate an expression that may raise, then go on with its value.\<close>

definition with_val :: "pyerror + 'a \<Rightarrow> ('a \<Rightarrow> stmt) \<Rightarrow> stmt" where
  "with_val r k s = (case r of Inl e \<Rightarrow> (Some e, s) | Inr v \<Rightarrow> k v s)"

text \<open>\<^verbatim>\<open>s.send(text)\<close>: writes the text to a socket that is connected and open, and
  raises \<^verbatim>\<open>socket.error\<close> otherwise. (A connected peer that has gone away, and a
  short write, are outside the model.)\<close>

definition send :: "string \<Rightarrow> stmt" where
  "send text s =
     (if closed s \<or> \<not> connected s then (Some SocketError, s)
      else (None, s\<lparr>trace := trace s @ [Sent text]\<rparr>))"

text \<open>\<^verbatim>\<open>s.close()\<close> never raises.\<close>

definition close :: stmt where
  "close s = (None, s\<lparr>closed := True, trace := trace s @ [Close]\<rparr>)"

definition usable :: "session \<Rightarrow> bool" where
  "usable s \<longleftrightarrow> connected s \<and> \<not> closed s"

text \<open>The lines a session has written to its socket, in order.\<close>

fun sent_lines :: "event list \<Rightarrow> string list" where
  "sent_lines [] = []"
| "sent_lines (Sent l # es) = l # sent_lines es"
| "sent_lines (_ # es) = sent_lines es"

section \<open>Starting and stopping a session\<close>

text \<open>
  \<^verbatim>\<open>vmdstart\<close> (pyvmdstream.py, lines 327-355). The environment decides whether the
  script file can be opened for writing and what the \<open>i\<close>-th call of \<^verbatim>\<open>s.connect\<close>
  does. The script text is \<^verbatim>\<open>ctl_script(port)\<close>, a fixed template with the port
  substituted, so the event records the port.
\<close>

record environment =
  script_writable :: bool
  connect_result :: "nat \<Rightarrow> conn_outcome"

definition new_socket :: session where
  "new_socket = \<lparr>connected = False, closed = False, trace = []\<rparr>"

text \<open>The body of \<^verbatim>\<open>for i in range(5)\<close>: the list holds the values of \<open>i\<close> still to
  come. \<^verbatim>\<open>break\<close> leaves the loop without the \<^verbatim>\<open>time.sleep(2)\<close>; an exception
  without \<^verbatim>\<open>errno\<close> makes \<^verbatim>\<open>e.errno\<close> raise \<^verbatim>\<open>AttributeError\<close> inside the
  handler, which nothing catches.\<close>

fun connect_loop :: "environment \<Rightarrow> int \<Rightarrow> nat list \<Rightarrow> stmt" where
  "connect_loop env port [] s = (None, s)"
| "connect_loop env port (i # rest) s =
     (let s1 = s\<lparr>trace := trace s @ [Connect ''127.0.0.1'' port]\<rparr> in
      case connect_result env i of
        ConnectReturns \<Rightarrow>
          connect_loop env port rest
            (s1\<lparr>connected := True, trace := trace s1 @ [Sleep 2]\<rparr>)
      | ConnectRaises NoErrno \<Rightarrow> (Some AttributeError, s1)
      | ConnectRaises (WithErrno errno) \<Rightarrow>
          if errno = Some 106 \<or> errno = Some 56 then (None, s1)
          else connect_loop env port rest
                 (s1\<lparr>trace := trace s1 @ [Print (WithErrno errno), Sleep 2]\<rparr>))"

definition vmdstart :: "environment \<Rightarrow> string \<Rightarrow> int \<Rightarrow> pyerror option \<times> session" where
  "vmdstart env command_script port =
     (if \<not> script_writable env then (Some IOError, new_socket)
      else connect_loop env port [0, 1, 2, 3, 4]
             (new_socket\<lparr>trace :=
                [WriteScript command_script port,
                 Popen (''vmd -e '' @ command_script),
                 Sleep 5]\<rparr>))"

text \<open>\<^verbatim>\<open>vmdstop\<close> (lines 357-369).\<close>

definition vmdstop :: stmt where
  "vmdstop = block [send ''exit\<newline>'', close]"

text \<open>What the retry loop is expected to leave in the trace for one call of
  \<^verbatim>\<open>s.connect\<close> that does not end it.\<close>

fun attempt_events :: "int \<Rightarrow> conn_outcome \<Rightarrow> event list" where
  "attempt_events port ConnectReturns = [Connect ''127.0.0.1'' port, Sleep 2]"
| "attempt_events port (ConnectRaises e) = [Connect ''127.0.0.1'' port, Print e, Sleep 2]"

text \<open>The two kinds of outcome the handler tells apart: the errno values 106 and 56
  (\<^verbatim>\<open>EISCONN\<close> on Linux and on macOS, the comment says "already connected"), and
  everything else that lets the loop go on.\<close>

fun already_connected :: "conn_outcome \<Rightarrow> bool" where
  "already_connected (ConnectRaises (WithErrno errno)) = (errno = Some 106 \<or> errno = Some 56)"
| "already_connected _ = False"

fun carries_on :: "conn_outcome \<Rightarrow> bool" where
  "carries_on ConnectReturns = True"
| "carries_on (ConnectRaises (WithErrno errno)) = (errno \<noteq> Some 106 \<and> errno \<noteq> Some 56)"
| "carries_on (ConnectRaises NoErrno) = False"

fun connect_count :: "event list \<Rightarrow> nat" where
  "connect_count [] = 0"
| "connect_count (Connect h p # es) = Suc (connect_count es)"
| "connect_count (_ # es) = connect_count es"

text \<open>An environment in which the first call of \<^verbatim>\<open>s.connect\<close> succeeds and every
  later one finds the socket connected already (errno 106).\<close>

definition env_connects_at_once :: environment where
  "env_connects_at_once =
     \<lparr>script_writable = True,
      connect_result = (\<lambda>i. if i = 0 then ConnectReturns
                             else ConnectRaises (WithErrno (Some 106)))\<rparr>"

section \<open>Formatting\<close>

text \<open>\<^verbatim>\<open>"%i" % n\<close> for an integer: its decimal digits, with a minus sign when negative.\<close>

definition digit_char :: "nat \<Rightarrow> char" where
  "digit_char d = ''0123456789'' ! d"

fun dec_nat :: "nat \<Rightarrow> string" where
  "dec_nat n = (if n < 10 then [digit_char n] else dec_nat (n div 10) @ [digit_char (n mod 10)])"

definition fmt_i :: "int \<Rightarrow> string" where
  "fmt_i n = (if n < 0 then CHR ''-'' # dec_nat (nat (- n)) else dec_nat (nat n))"

text \<open>
  \<^verbatim>\<open>"%f" % x\<close> and \<^verbatim>\<open>"%0.3f" % x\<close> are the C library's renderings of a double.
  They are parameters of the model (\<open>fmt_f\<close>, \<open>fmt_f3\<close>): every result below holds for any
  rendering. For evaluating examples there is \<open>fixed_point d\<close>, the decimal expansion
  of a real with \<open>d\<close> digits after the point, ties rounded to even.
\<close>

definition round_half_even :: "real \<Rightarrow> int" where
  "round_half_even x =
     (let lo = \<lfloor>x\<rfloor>; frac = x - of_int lo in
      if frac < 1 / 2 then lo
      else if 1 / 2 < frac then lo + 1
      else if even lo then lo else lo + 1)"

definition pad_zeros :: "nat \<Rightarrow> string \<Rightarrow> string" where
  "pad_zeros d ds = replicate (d - length ds) (CHR ''0'') @ ds"

definition fixed_point :: "nat \<Rightarrow> real \<Rightarrow> string" where
  "fixed_point d x =
     (let m = nat (round_half_even (\<bar>x\<bar> * 10 ^ d)) in
      (if x < 0 then [CHR ''-''] else [])
      @ dec_nat (m div 10 ^ d)
      @ (if d = 0 then [] else CHR ''.'' # pad_zeros d (dec_nat (m mod 10 ^ d))))"

section \<open>Drawing an atomic configuration\<close>

text \<open>Hard coded values from vmd version 1.9 (pyvmdstream.py, lines 35-36).\<close>

definition VMDSTARTCOLOR :: int where
  "VMDSTARTCOLOR = 33"

definition VMDNCOLORS :: int where
  "VMDNCOLORS = 1024"

text \<open>Indexing a numpy array (or a Python list) along its first axis: an index in
  \<open>[-n, n)\<close> is valid, a negative one counts from the end, any other raises
  \<^verbatim>\<open>IndexError\<close>. Subscripting \<^verbatim>\<open>None\<close> raises \<^verbatim>\<open>TypeError\<close>.\<close>

definition np_get :: "'a list \<Rightarrow> int \<Rightarrow> pyerror + 'a" where
  "np_get xs i =
     (let n = int (length xs) in
      if 0 \<le> i \<and> i < n then Inr (xs ! nat i)
      else if - n \<le> i \<and> i < 0 then Inr (xs ! nat (i + n))
      else Inl IndexError)"

definition subscript :: "'a list option \<Rightarrow> int \<Rightarrow> pyerror + 'a" where
  "subscript arr i = (case arr of None \<Rightarrow> Inl TypeError | Some xs \<Rightarrow> np_get xs i)"

type_synonym vec3 = "real \<times> real \<times> real"

text \<open>The arguments of \<^verbatim>\<open>draw_atomic\<close> (lines 101-104); \<open>None\<close> is Python's
  \<^verbatim>\<open>None\<close>. The configuration is an (N,3) array: a list of N rows.\<close>

record draw_args =
  configuration :: "vec3 list"
  atomtypes :: "int list option"
  default_radius :: real
  radii :: "real list option"
  radius_list :: "real list option"
  color_list :: "int list option"
  color_value_list :: "real list option"
  sphere_resolution :: int
  connecting_segments_types :: "int list option"
  bond_list :: "(int \<times> int) list option"
  cylinder_radius_fraction :: real
  reset_view :: bool

text \<open>A call with the configuration only: every other argument at its default.\<close>

definition defaults :: "vec3 list \<Rightarrow> draw_args" where
  "defaults conf =
     \<lparr>configuration = conf, atomtypes = None, default_radius = 0.5, radii = None,
      radius_list = None, color_list = None, color_value_list = None,
      sphere_resolution = 30, connecting_segments_types = None, bond_list = None,
      cylinder_radius_fraction = 0.5, reset_view = True\<rparr>"

text \<open>The three kinds of line the loops send.\<close>

definition color_cmd :: "int \<Rightarrow> string" where
  "color_cmd c = ''draw color '' @ fmt_i c @ ''\<newline>''"

definition sphere_cmd :: "(real \<Rightarrow> string) \<Rightarrow> vec3 \<Rightarrow> real \<Rightarrow> int \<Rightarrow> string" where
  "sphere_cmd fmt_f p r res =
     (case p of (x, y, z) \<Rightarrow>
        ''draw sphere {'' @ fmt_f x @ '' '' @ fmt_f y @ '' '' @ fmt_f z
        @ ''} radius '' @ fmt_f r @ '' resolution '' @ fmt_i res @ ''\<newline>'')"

definition cylinder_cmd :: "(real \<Rightarrow> string) \<Rightarrow> vec3 \<Rightarrow> vec3 \<Rightarrow> real \<Rightarrow> int \<Rightarrow> string" where
  "cylinder_cmd fmt_f p q r res =
     (case p of (x, y, z) \<Rightarrow> case q of (x', y', z') \<Rightarrow>
        ''draw cylinder {'' @ fmt_f x @ '' '' @ fmt_f y @ '' '' @ fmt_f z
        @ ''} {'' @ fmt_f x' @ '' '' @ fmt_f y' @ '' '' @ fmt_f z'
        @ ''} radius '' @ fmt_f r @ '' resolution '' @ fmt_i res @ '' filled yes\<newline>'')"

text \<open>Lines 146-148: a given \<^verbatim>\<open>color_value_list\<close> replaces \<^verbatim>\<open>color_list\<close>.\<close>

definition effective_colors :: "draw_args \<Rightarrow> int list option" where
  "effective_colors a =
     (case color_value_list a of
        Some values \<Rightarrow> Some (map (\<lambda>v. \<lfloor>v * of_int VMDNCOLORS\<rfloor>) values)
      | None \<Rightarrow> color_list a)"

text \<open>Lines 153-156 and 166-169.\<close>

definition select_color :: "draw_args \<Rightarrow> int list option \<Rightarrow> int \<Rightarrow> stmt" where
  "select_color a colors i =
     (case colors of
        Some cl \<Rightarrow> with_val (np_get cl i) (\<lambda>c. send (color_cmd (c + VMDSTARTCOLOR)))
      | None \<Rightarrow>
          (case atomtypes a of
             Some ts \<Rightarrow> with_val (np_get ts i) (\<lambda>t. send (color_cmd t))
           | None \<Rightarrow> skip))"

text \<open>Lines 157-162 and 171-176.\<close>

definition select_radius :: "draw_args \<Rightarrow> int \<Rightarrow> pyerror + real" where
  "select_radius a i =
     (if radii a \<noteq> None \<and> atomtypes a \<noteq> None then
        (case np_get (the (atomtypes a)) i of
           Inl e \<Rightarrow> Inl e
         | Inr t \<Rightarrow> np_get (the (radii a)) t)
      else if radius_list a \<noteq> None then np_get (the (radius_list a)) i
      else Inr (default_radius a))"

text \<open>Lines 151-163: one pass of the loop over \<^verbatim>\<open>bond_list\<close>.\<close>

definition draw_bond :: "(real \<Rightarrow> string) \<Rightarrow> draw_args \<Rightarrow> int list option \<Rightarrow> int \<times> int \<Rightarrow> stmt" where
  "draw_bond fmt_f a colors bond =
     (case bond of (i, j) \<Rightarrow>
        block
          [select_color a colors i,
           with_val (select_radius a i) (\<lambda>this_radius.
           with_val (np_get (configuration a) i) (\<lambda>p.
           with_val (np_get (configuration a) j) (\<lambda>q.
             send (cylinder_cmd fmt_f p q (this_radius * cylinder_radius_fraction a)
                     (sphere_resolution a)))))])"

text \<open>Lines 181-182: one pass of the loop over \<^verbatim>\<open>connecting_segments_types\<close>. The
  second comparison is evaluated only if the first holds.\<close>

definition connect_segment ::
  "(real \<Rightarrow> string) \<Rightarrow> draw_args \<Rightarrow> int \<Rightarrow> real \<Rightarrow> int \<Rightarrow> stmt" where
  "connect_segment fmt_f a i this_radius t =
     with_val (subscript (atomtypes a) i) (\<lambda>ti.
       if ti \<noteq> t then skip
       else with_val (subscript (atomtypes a) (i + 1)) (\<lambda>tj.
         if tj \<noteq> t then skip
         else with_val (np_get (configuration a) i) (\<lambda>p.
              with_val (np_get (configuration a) (i + 1)) (\<lambda>q.
                send (cylinder_cmd fmt_f p q (this_radius * cylinder_radius_fraction a)
                        (sphere_resolution a))))))"

text \<open>Lines 165-182: one pass of the loop over the particles.\<close>

definition draw_particle :: "(real \<Rightarrow> string) \<Rightarrow> draw_args \<Rightarrow> int list option \<Rightarrow> int \<Rightarrow> stmt" where
  "draw_particle fmt_f a colors i =
     block
       [select_color a colors i,
        with_val (select_radius a i) (\<lambda>this_radius.
          block
            [with_val (np_get (configuration a) i) (\<lambda>p.
               send (sphere_cmd fmt_f p this_radius (sphere_resolution a))),
             if i + 1 < int (length (configuration a)) \<and> connecting_segments_types a \<noteq> None
             then for_each (the (connecting_segments_types a))
                    (connect_segment fmt_f a i this_radius)
             else skip])]"

text \<open>\<^verbatim>\<open>range(len(xs))\<close>\<close>

definition range_len :: "'a list \<Rightarrow> int list" where
  "range_len xs = map int [0..<length xs]"

text \<open>\<^verbatim>\<open>VMDStream.draw_atomic\<close> (lines 136-187).\<close>

definition draw_atomic :: "(real \<Rightarrow> string) \<Rightarrow> draw_args \<Rightarrow> stmt" where
  "draw_atomic fmt_f a =
     block
       [send ''axes location off\<newline>'',
        send ''display projection orthographic\<newline>'',
        send ''display resize 800 800\<newline>'',
        send ''draw delete all\<newline>'',
        send ''draw materials on\<newline>'',
        send ''draw material \"HardPlastic\"\<newline>'',
        (case bond_list a of
           Some bonds \<Rightarrow> for_each bonds (draw_bond fmt_f a (effective_colors a))
         | None \<Rightarrow> skip),
        for_each (range_len (configuration a)) (draw_particle fmt_f a (effective_colors a)),
        if reset_view a
        then block [send ''display resetview\<newline>'', send ''scale by 1.3\<newline>'']
        else skip]"

section \<open>What a call of \<open>draw_atomic\<close> is expected to send\<close>

text \<open>
  The description of section 4.4 of the specification, as functions from the arguments
  to the lines sent. \<open>np_at\<close> reads an array at an index that is in range.
\<close>

definition np_at :: "'a list \<Rightarrow> int \<Rightarrow> 'a" where
  "np_at xs i = xs ! nat (if i < 0 then i + int (length xs) else i)"

text \<open>Color: continuous color value, else discrete color id (both offset by the
  palette start id), else the type id, else no color command.\<close>

definition expected_color :: "draw_args \<Rightarrow> int \<Rightarrow> int option" where
  "expected_color a i =
     (case color_value_list a of
        Some values \<Rightarrow> Some (\<lfloor>np_at values i * 1024\<rfloor> + 33)
      | None \<Rightarrow>
          (case color_list a of
             Some ids \<Rightarrow> Some (np_at ids i + 33)
           | None \<Rightarrow>
               (case atomtypes a of
                  Some ts \<Rightarrow> Some (np_at ts i)
                | None \<Rightarrow> None)))"

text \<open>Radius: per-type radius keyed by the particle's type, else per-particle radius,
  else the default radius.\<close>

definition expected_radius :: "draw_args \<Rightarrow> int \<Rightarrow> real" where
  "expected_radius a i =
     (case (radii a, atomtypes a) of
        (Some per_type, Some ts) \<Rightarrow> np_at per_type (np_at ts i)
      | _ \<Rightarrow>
          (case radius_list a of
             Some per_particle \<Rightarrow> np_at per_particle i
           | None \<Rightarrow> default_radius a))"

definition expected_color_lines :: "draw_args \<Rightarrow> int \<Rightarrow> string list" where
  "expected_color_lines a i =
     (case expected_color a i of Some c \<Rightarrow> [color_cmd c] | None \<Rightarrow> [])"

definition expected_bond_cylinder :: "(real \<Rightarrow> string) \<Rightarrow> draw_args \<Rightarrow> int \<times> int \<Rightarrow> string" where
  "expected_bond_cylinder fmt_f a bond =
     cylinder_cmd fmt_f (np_at (configuration a) (fst bond)) (np_at (configuration a) (snd bond))
       (expected_radius a (fst bond) * cylinder_radius_fraction a) (sphere_resolution a)"

definition expected_bond_lines :: "(real \<Rightarrow> string) \<Rightarrow> draw_args \<Rightarrow> int \<times> int \<Rightarrow> string list" where
  "expected_bond_lines fmt_f a bond =
     expected_color_lines a (fst bond) @ [expected_bond_cylinder fmt_f a bond]"

definition expected_sphere :: "(real \<Rightarrow> string) \<Rightarrow> draw_args \<Rightarrow> nat \<Rightarrow> string" where
  "expected_sphere fmt_f a i =
     sphere_cmd fmt_f (configuration a ! i) (expected_radius a (int i)) (sphere_resolution a)"

text \<open>The cylinders that connect particle \<open>i\<close> to particle \<open>i + 1\<close>: one for every entry of
  \<^verbatim>\<open>connecting_segments_types\<close> that is the type of both.\<close>

definition expected_segments :: "(real \<Rightarrow> string) \<Rightarrow> draw_args \<Rightarrow> nat \<Rightarrow> string list" where
  "expected_segments fmt_f a i =
     (case (connecting_segments_types a, atomtypes a) of
        (Some cst, Some ts) \<Rightarrow>
          if Suc i < length (configuration a)
          then map (\<lambda>t. cylinder_cmd fmt_f (configuration a ! i) (configuration a ! Suc i)
                           (expected_radius a (int i) * cylinder_radius_fraction a)
                           (sphere_resolution a))
                 (filter (\<lambda>t. ts ! i = t \<and> ts ! Suc i = t) cst)
          else []
      | _ \<Rightarrow> [])"

definition expected_particle_lines :: "(real \<Rightarrow> string) \<Rightarrow> draw_args \<Rightarrow> nat \<Rightarrow> string list" where
  "expected_particle_lines fmt_f a i =
     expected_color_lines a (int i) @ [expected_sphere fmt_f a i] @ expected_segments fmt_f a i"

definition setup_lines :: "string list" where
  "setup_lines =
     [''axes location off\<newline>'',
      ''display projection orthographic\<newline>'',
      ''display resize 800 800\<newline>'',
      ''draw delete all\<newline>'',
      ''draw materials on\<newline>'',
      ''draw material \"HardPlastic\"\<newline>'']"

definition reset_lines :: "string list" where
  "reset_lines = [''display resetview\<newline>'', ''scale by 1.3\<newline>'']"

definition bonds_of :: "draw_args \<Rightarrow> (int \<times> int) list" where
  "bonds_of a = (case bond_list a of Some bonds \<Rightarrow> bonds | None \<Rightarrow> [])"

definition expected_lines :: "(real \<Rightarrow> string) \<Rightarrow> draw_args \<Rightarrow> string list" where
  "expected_lines fmt_f a =
     setup_lines
     @ concat (map (expected_bond_lines fmt_f a) (bonds_of a))
     @ concat (map (expected_particle_lines fmt_f a) [0..<length (configuration a)])
     @ (if reset_view a then reset_lines else [])"

text \<open>
  The arguments fit together, as the docstring asks: every per-particle array that is
  used has one entry per particle, every type indexes the per-type radii, every bond
  names two particles.
\<close>

definition in_range :: "nat \<Rightarrow> int \<Rightarrow> bool" where
  "in_range n i \<longleftrightarrow> - int n \<le> i \<and> i < int n"

definition arrays_fit :: "draw_args \<Rightarrow> bool" where
  "arrays_fit a \<longleftrightarrow>
     (let n = length (configuration a) in
      (case atomtypes a of Some ts \<Rightarrow> length ts = n | None \<Rightarrow> True)
      \<and> (case radius_list a of Some rl \<Rightarrow> length rl = n | None \<Rightarrow> True)
      \<and> (case effective_colors a of Some cl \<Rightarrow> length cl = n | None \<Rightarrow> True)
      \<and> (case radii a of
            Some rs \<Rightarrow> (case atomtypes a of
                          Some ts \<Rightarrow> list_all (in_range (length rs)) ts
                        | None \<Rightarrow> True)
          | None \<Rightarrow> True)
      \<and> list_all (\<lambda>b. in_range n (fst b) \<and> in_range n (snd b)) (bonds_of a))"

text \<open>Connecting neighbours of the same type needs the types.\<close>

definition types_given_if_needed :: "draw_args \<Rightarrow> bool" where
  "types_given_if_needed a \<longleftrightarrow> connecting_segments_types a = None \<or> atomtypes a \<noteq> None"

text \<open>Telling the kinds of line apart by how they begin.\<close>

definition is_color_line :: "string \<Rightarrow> bool" where
  "is_color_line l \<longleftrightarrow> take 11 l = ''draw color ''"

definition is_sphere_line :: "string \<Rightarrow> bool" where
  "is_sphere_line l \<longleftrightarrow> take 12 l = ''draw sphere ''"

definition is_cylinder_line :: "string \<Rightarrow> bool" where
  "is_cylinder_line l \<longleftrightarrow> take 14 l = ''draw cylinder ''"

text \<open>A statement that, on a usable session, returns normally after sending exactly the
  given lines.\<close>

definition outputs :: "stmt \<Rightarrow> string list \<Rightarrow> bool" where
  "outputs c ls \<longleftrightarrow> (\<forall>s. usable s \<longrightarrow> c s = (None, s\<lparr>trace := trace s @ map Sent ls\<rparr>))"

section \<open>Session start and stop: results\<close>

lemma block_Nil: "block [] = skip"
  by (rule ext) (simp add: skip_def)

declare block.simps [simp del]

lemma send_usable:
  "usable s \<Longrightarrow> send text s = (None, s\<lparr>trace := trace s @ [Sent text]\<rparr>)"
  by (simp add: send_def usable_def)

lemma usable_trace_update [simp]: "usable (s\<lparr>trace := t\<rparr>) = usable s"
  by (simp add: usable_def)

text \<open>
  Claim C7. On every session (a socket that is connected and not yet closed), whatever
  it has done before, \<^verbatim>\<open>vmdstop\<close> returns normally after exactly two further
  events: the text \<^verbatim>\<open>exit\n\<close> written to the socket once, and then the socket closed.
\<close>

theorem vmdstop_sends_exit_then_closes:
  assumes "usable s"
  shows "vmdstop s = (None, s\<lparr>closed := True, trace := trace s @ [Sent ''exit\<newline>'', Close]\<rparr>)"
  using assms by (simp add: vmdstop_def block.simps send_usable close_def)

theorem vmdstop_sends_exit_then_closes_witness:
  "usable \<lparr>connected = True, closed = False, trace = []\<rparr> \<and>
   vmdstop \<lparr>connected = True, closed = False, trace = []\<rparr> =
     (None, \<lparr>connected = True, closed = True, trace = [Sent ''exit\<newline>'', Close]\<rparr>)"
  using vmdstop_sends_exit_then_closes [of "\<lparr>connected = True, closed = False, trace = []\<rparr>"]
  by (simp add: usable_def)

declare connect_loop.simps(2) [simp del]

lemma bex_upt: "(\<exists>i\<in>set [0..<n]. P i) \<longleftrightarrow> (\<exists>i<n. P i)"
  by auto

lemma connect_count_append [simp]:
  "connect_count (xs @ ys) = connect_count xs + connect_count ys"
  by (induction xs rule: connect_count.induct) simp_all

lemma connect_count_attempt [simp]: "connect_count (attempt_events port r) = 1"
  by (cases r) simp_all

lemma connect_count_attempts [simp]:
  "connect_count (concat (map (\<lambda>i. attempt_events port (f i)) xs)) = length xs"
  by (induction xs) simp_all

lemma connect_loop_carries_on:
  assumes "\<forall>i\<in>set xs. carries_on (connect_result env i)"
  shows "connect_loop env port (xs @ ys) s =
         connect_loop env port ys
           (s\<lparr>connected := connected s \<or> (\<exists>i\<in>set xs. connect_result env i = ConnectReturns),
              trace := trace s @ concat (map (\<lambda>i. attempt_events port (connect_result env i)) xs)\<rparr>)"
  using assms
proof (induction xs arbitrary: s)
  case Nil
  then show ?case by simp
next
  case (Cons i xs)
  from Cons.prems have step: "carries_on (connect_result env i)"
    and rest: "\<forall>j\<in>set xs. carries_on (connect_result env j)" by simp_all
  show ?case
  proof (cases "connect_result env i")
    case ConnectReturns
    then show ?thesis using Cons.IH [OF rest] by (simp add: connect_loop.simps(2))
  next
    case (ConnectRaises e)
    with step obtain errno where e: "e = WithErrno errno"
      and no: "errno \<noteq> Some 106" "errno \<noteq> Some 56"
      by (cases e) simp_all
    show ?thesis using Cons.IH [OF rest] ConnectRaises e no by (simp add: connect_loop.simps(2))
  qed
qed

lemma connect_loop_already_connected:
  assumes "already_connected (connect_result env i)"
  shows "connect_loop env port (i # rest) s =
         (None, s\<lparr>trace := trace s @ [Connect ''127.0.0.1'' port]\<rparr>)"
proof (cases "connect_result env i")
  case ConnectReturns
  with assms show ?thesis by simp
next
  case (ConnectRaises e)
  with assms show ?thesis by (cases e) (auto simp: connect_loop.simps(2))
qed

lemma upt_5: "[0, 1, 2, 3, 4] = [0..<5]"
  by (simp add: upt_rec)

lemma upt_split_at: "n < m \<Longrightarrow> [0..<m] = [0..<n] @ n # [Suc n..<m]"
  by (metis le0 upt_add_eq_append upt_conv_Cons le_add_diff_inverse less_imp_le_nat)

text \<open>
  Claim C6, as amended. Let the script file be writable and let no exception raised by
  \<^verbatim>\<open>s.connect\<close> lack the \<^verbatim>\<open>errno\<close> attribute. If the first \<open>n \<le> 5\<close> calls each
  either return or raise with an errno other than 106 and 56, and call \<open>n\<close> (when
  \<open>n < 5\<close>) raises with errno 106 or 56, then \<^verbatim>\<open>vmdstart\<close> returns the socket without
  signalling anything, having written the script, started the program, slept 5 seconds
  and called connect on 127.0.0.1 and the port \<open>min 5 (n + 1)\<close> times: each of the first
  \<open>n\<close> calls is followed by a 2 second sleep (after printing the exception, if it raised),
  also when it returned successfully, and only the "already connected" error ends the
  loop early. The socket is connected exactly if one of the first \<open>n\<close> calls returned.
\<close>

theorem vmdstart_retry_loop:
  assumes "script_writable env"
    and "n \<le> 5"
    and "\<forall>i<n. carries_on (connect_result env i)"
    and "n < 5 \<longrightarrow> already_connected (connect_result env n)"
  shows "vmdstart env command_script port =
           (None,
            \<lparr>connected = (\<exists>i<n. connect_result env i = ConnectReturns),
             closed = False,
             trace = [WriteScript command_script port, Popen (''vmd -e '' @ command_script), Sleep 5]
                     @ concat (map (\<lambda>i. attempt_events port (connect_result env i)) [0..<n])
                     @ (if n < 5 then [Connect ''127.0.0.1'' port] else [])\<rparr>)
         \<and> connect_count (trace (snd (vmdstart env command_script port))) = min 5 (n + 1)"
proof -
  let ?s0 = "new_socket\<lparr>trace :=
                [WriteScript command_script port, Popen (''vmd -e '' @ command_script), Sleep 5]\<rparr>"
  have run: "\<forall>i\<in>set [0..<n]. carries_on (connect_result env i)"
    using assms(3) by simp
  have start: "vmdstart env command_script port = connect_loop env port [0..<5] ?s0"
    using assms(1) by (simp only: vmdstart_def upt_5 simp_thms if_False)
  have main: "vmdstart env command_script port =
           (None,
            \<lparr>connected = (\<exists>i<n. connect_result env i = ConnectReturns),
             closed = False,
             trace = [WriteScript command_script port, Popen (''vmd -e '' @ command_script), Sleep 5]
                     @ concat (map (\<lambda>i. attempt_events port (connect_result env i)) [0..<n])
                     @ (if n < 5 then [Connect ''127.0.0.1'' port] else [])\<rparr>)"
  proof (cases "n < 5")
    case True
    then have split: "[0..<5] = [0..<n] @ n # [Suc n..<5]" by (rule upt_split_at)
    from True assms(4) have stop: "already_connected (connect_result env n)" by simp
    show ?thesis
      unfolding start split
      by (simp add: connect_loop_carries_on [OF run] connect_loop_already_connected [OF stop]
            new_socket_def True bex_upt del: set_upt)
  next
    case False
    with assms(2) have n: "n = 5" by simp
    have "connect_loop env port ([0..<n] @ []) ?s0 =
          connect_loop env port []
            (?s0\<lparr>connected := connected ?s0 \<or> (\<exists>i\<in>set [0..<n]. connect_result env i = ConnectReturns),
              trace := trace ?s0 @ concat (map (\<lambda>i. attempt_events port (connect_result env i)) [0..<n])\<rparr>)"
      by (rule connect_loop_carries_on [OF run])
    then show ?thesis
      unfolding start using n by (simp add: new_socket_def bex_upt del: set_upt)
  qed
  show ?thesis
    unfolding main using assms(2) by (simp add: min_def)
qed

theorem vmdstart_retry_loop_witness:
  "vmdstart env_connects_at_once ''remote_ctl.tcl'' 5555 =
     (None,
      \<lparr>connected = True, closed = False,
       trace = [WriteScript ''remote_ctl.tcl'' 5555, Popen ''vmd -e remote_ctl.tcl'', Sleep 5,
                Connect ''127.0.0.1'' 5555, Sleep 2, Connect ''127.0.0.1'' 5555]\<rparr>)
   \<and> connect_count (trace (snd (vmdstart env_connects_at_once ''remote_ctl.tcl'' 5555))) = 2"
  using vmdstart_retry_loop [of env_connects_at_once 1 "''remote_ctl.tcl''" 5555]
  by (simp add: env_connects_at_once_def)

text \<open>
  Claim C6 as stated fails where it says that a successful connect ends the retry loop:
  with the first call of connect returning successfully, the loop sleeps and calls
  connect a second time; it is the "already connected" error of that second call that
  ends it.
\<close>

theorem vmdstart_success_does_not_end_loop:
  "connect_result env_connects_at_once 0 = ConnectReturns
   \<and> trace (snd (vmdstart env_connects_at_once ''remote_ctl.tcl'' 5555)) =
       [WriteScript ''remote_ctl.tcl'' 5555, Popen ''vmd -e remote_ctl.tcl'', Sleep 5,
        Connect ''127.0.0.1'' 5555, Sleep 2, Connect ''127.0.0.1'' 5555]"
  by (simp add: env_connects_at_once_def vmdstart_def new_socket_def connect_loop.simps(2))

section \<open>Drawing: the lines sent when the arguments fit\<close>

lemma outputs_skip: "outputs skip []"
  by (simp add: outputs_def skip_def)

lemma outputs_send: "outputs (send l) [l]"
  by (simp add: outputs_def send_usable)

lemma outputs_block_Nil: "outputs (block []) []"
  by (simp add: outputs_def block.simps)

lemma outputs_block_Cons:
  assumes "outputs c l1" and "outputs (block cs) l2"
  shows "outputs (block (c # cs)) (l1 @ l2)"
  using assms by (simp add: outputs_def block.simps)

lemma outputs_for_each:
  assumes "\<And>x. x \<in> set xs \<Longrightarrow> outputs (body x) (out x)"
  shows "outputs (for_each xs body) (concat (map out xs))"
  using assms unfolding for_each_def
proof (induction xs)
  case Nil
  show ?case by (simp add: outputs_block_Nil)
next
  case (Cons x xs)
  have "outputs (block (body x # map body xs)) (out x @ concat (map out xs))"
    by (rule outputs_block_Cons) (simp_all add: Cons)
  then show ?case by simp
qed

lemma with_val_Inr [simp]: "with_val (Inr v) k = k v"
  by (rule ext) (simp add: with_val_def)

lemma with_val_Inl [simp]: "with_val (Inl e) k s = (Some e, s)"
  by (simp add: with_val_def)

lemma np_get_in_range: "in_range (length xs) i \<Longrightarrow> np_get xs i = Inr (np_at xs i)"
  by (auto simp: np_get_def np_at_def in_range_def Let_def)

lemma np_at_nat [simp]: "np_at xs (int i) = xs ! i"
  by (simp add: np_at_def)

lemma in_range_nat [simp]: "in_range n (int i) \<longleftrightarrow> i < n"
  by (simp add: in_range_def)

lemma np_at_mem: "in_range (length xs) i \<Longrightarrow> np_at xs i \<in> set xs"
  by (auto simp: np_at_def in_range_def intro!: nth_mem)

lemma np_at_map: "in_range (length xs) i \<Longrightarrow> np_at (map f xs) i = f (np_at xs i)"
  by (auto simp: np_at_def in_range_def)

lemma select_color_outputs:
  assumes "arrays_fit a" and "in_range (length (configuration a)) i"
  shows "outputs (select_color a (effective_colors a) i) (expected_color_lines a i)"
proof (cases "color_value_list a")
  case (Some vs)
  with assms have "in_range (length vs) i"
    by (simp add: arrays_fit_def effective_colors_def Let_def)
  then show ?thesis
    using Some
    by (simp add: select_color_def effective_colors_def expected_color_lines_def
          expected_color_def np_get_in_range np_at_map outputs_send
          VMDNCOLORS_def VMDSTARTCOLOR_def)
next
  case None
  note no_values = None
  show ?thesis
  proof (cases "color_list a")
    case (Some ids)
    with assms no_values have "in_range (length ids) i"
      by (simp add: arrays_fit_def effective_colors_def Let_def)
    then show ?thesis
      using Some no_values
      by (simp add: select_color_def effective_colors_def expected_color_lines_def
            expected_color_def np_get_in_range outputs_send VMDSTARTCOLOR_def)
  next
    case None
    note no_ids = None
    show ?thesis
    proof (cases "atomtypes a")
      case None
      then show ?thesis
        using no_values no_ids
        by (simp add: select_color_def effective_colors_def expected_color_lines_def
              expected_color_def outputs_skip)
    next
      case (Some ts)
      with assms have "in_range (length ts) i"
        by (simp add: arrays_fit_def Let_def)
      then show ?thesis
        using Some no_values no_ids
        by (simp add: select_color_def effective_colors_def expected_color_lines_def
              expected_color_def np_get_in_range outputs_send)
    qed
  qed
qed

lemma select_radius_value:
  assumes "arrays_fit a" and "in_range (length (configuration a)) i"
  shows "select_radius a i = Inr (expected_radius a i)"
proof (cases "radii a \<noteq> None \<and> atomtypes a \<noteq> None")
  case True
  then obtain rs ts where rs: "radii a = Some rs" and ts: "atomtypes a = Some ts" by auto
  from assms ts have i: "in_range (length ts) i"
    by (simp add: arrays_fit_def Let_def)
  from assms rs ts have "\<forall>t\<in>set ts. in_range (length rs) t"
    by (simp add: arrays_fit_def Let_def list_all_iff)
  with np_at_mem [OF i] have "in_range (length rs) (np_at ts i)" by blast
  then show ?thesis
    using rs ts i by (simp add: select_radius_def expected_radius_def np_get_in_range)
next
  case False
  note no_per_type = False
  show ?thesis
  proof (cases "radius_list a")
    case None
    then show ?thesis
      using no_per_type
      by (auto simp: select_radius_def expected_radius_def split: option.splits)
  next
    case (Some rl)
    with assms have "in_range (length rl) i"
      by (simp add: arrays_fit_def Let_def)
    then show ?thesis
      using Some no_per_type
      by (auto simp: select_radius_def expected_radius_def np_get_in_range split: option.splits)
  qed
qed

lemma draw_bond_outputs:
  assumes "arrays_fit a"
    and "in_range (length (configuration a)) (fst b)"
    and "in_range (length (configuration a)) (snd b)"
  shows "outputs (draw_bond fmt_f a (effective_colors a) b) (expected_bond_lines fmt_f a b)"
proof -
  obtain i j where b: "b = (i, j)" by (cases b)
  have "outputs (block [select_color a (effective_colors a) i,
                        send (expected_bond_cylinder fmt_f a (i, j))])
          (expected_color_lines a i @ ([expected_bond_cylinder fmt_f a (i, j)] @ []))"
    using assms b
    by (intro outputs_block_Cons outputs_block_Nil outputs_send select_color_outputs) simp_all
  then show ?thesis
    using assms b
    by (simp add: draw_bond_def expected_bond_lines_def select_radius_value np_get_in_range
          expected_bond_cylinder_def)
qed

lemma np_get_nat: "i < length xs \<Longrightarrow> np_get xs (int i) = Inr (xs ! i)"
  by (simp add: np_get_def)

lemma np_get_Suc: "Suc i < length xs \<Longrightarrow> np_get xs (int i + 1) = Inr (xs ! Suc i)"
  using np_get_nat [of "Suc i" xs] by (simp add: add.commute)

lemma concat_map_if:
  "concat (map (\<lambda>t. if P t then [c] else []) xs) = map (\<lambda>t. c) (filter P xs)"
  by (induction xs) simp_all

lemma connect_segment_outputs:
  assumes "atomtypes a = Some ts" and "length ts = length (configuration a)"
    and "Suc i < length (configuration a)"
  shows "outputs (connect_segment fmt_f a (int i) r t)
           (if ts ! i = t \<and> ts ! Suc i = t
            then [cylinder_cmd fmt_f (configuration a ! i) (configuration a ! Suc i)
                    (r * cylinder_radius_fraction a) (sphere_resolution a)]
            else [])"
proof -
  from assms have "i < length ts" "Suc i < length ts" "i < length (configuration a)" by simp_all
  then show ?thesis
    using assms
    by (simp add: connect_segment_def subscript_def np_get_nat np_get_Suc
          outputs_skip outputs_send)
qed

lemma segments_outputs:
  assumes "arrays_fit a" and "types_given_if_needed a" and "i < length (configuration a)"
  shows "outputs
           (if int i + 1 < int (length (configuration a)) \<and> connecting_segments_types a \<noteq> None
            then for_each (the (connecting_segments_types a))
                   (connect_segment fmt_f a (int i) (expected_radius a (int i)))
            else skip)
           (expected_segments fmt_f a i)"
proof (cases "Suc i < length (configuration a) \<and> connecting_segments_types a \<noteq> None")
  case False
  then show ?thesis
    by (auto simp: expected_segments_def outputs_skip split: option.splits)
next
  case True
  then obtain cst where cst: "connecting_segments_types a = Some cst" by auto
  with assms(2) obtain ts where ts: "atomtypes a = Some ts"
    by (auto simp: types_given_if_needed_def)
  with assms(1) have len: "length ts = length (configuration a)"
    by (simp add: arrays_fit_def Let_def)
  from True have next_one: "Suc i < length (configuration a)" by simp
  have "outputs (for_each cst (connect_segment fmt_f a (int i) (expected_radius a (int i))))
          (concat (map (\<lambda>t. if ts ! i = t \<and> ts ! Suc i = t
                        then [cylinder_cmd fmt_f (configuration a ! i) (configuration a ! Suc i)
                                (expected_radius a (int i) * cylinder_radius_fraction a)
                                (sphere_resolution a)]
                        else []) cst))"
    by (rule outputs_for_each) (rule connect_segment_outputs [OF ts len next_one])
  then show ?thesis
    using True cst ts by (simp add: expected_segments_def concat_map_if)
qed

lemma draw_particle_outputs:
  assumes "arrays_fit a" and "types_given_if_needed a" and "i < length (configuration a)"
  shows "outputs (draw_particle fmt_f a (effective_colors a) (int i))
           (expected_particle_lines fmt_f a i)"
proof -
  have color: "outputs (select_color a (effective_colors a) (int i)) (expected_color_lines a (int i))"
    using assms by (intro select_color_outputs) simp_all
  have radius: "select_radius a (int i) = Inr (expected_radius a (int i))"
    using assms by (intro select_radius_value) simp_all
  have body: "outputs
      (block [send (expected_sphere fmt_f a i),
              if int i + 1 < int (length (configuration a)) \<and> connecting_segments_types a \<noteq> None
              then for_each (the (connecting_segments_types a))
                     (connect_segment fmt_f a (int i) (expected_radius a (int i)))
              else skip])
      ([expected_sphere fmt_f a i] @ (expected_segments fmt_f a i @ []))"
    by (intro outputs_block_Cons outputs_block_Nil outputs_send segments_outputs assms)
  have "outputs
      (block [select_color a (effective_colors a) (int i),
              block [send (expected_sphere fmt_f a i),
                     if int i + 1 < int (length (configuration a)) \<and> connecting_segments_types a \<noteq> None
                     then for_each (the (connecting_segments_types a))
                            (connect_segment fmt_f a (int i) (expected_radius a (int i)))
                     else skip]])
      (expected_color_lines a (int i) @ (([expected_sphere fmt_f a i] @ (expected_segments fmt_f a i @ [])) @ []))"
    by (intro outputs_block_Cons outputs_block_Nil color body)
  then show ?thesis
    using assms(3)
    by (simp add: draw_particle_def radius np_get_nat expected_particle_lines_def
          expected_sphere_def)
qed

lemma bonds_outputs:
  assumes "arrays_fit a"
  shows "outputs (case bond_list a of
                    Some bonds \<Rightarrow> for_each bonds (draw_bond fmt_f a (effective_colors a))
                  | None \<Rightarrow> skip)
           (concat (map (expected_bond_lines fmt_f a) (bonds_of a)))"
proof (cases "bond_list a")
  case None
  then show ?thesis by (simp add: bonds_of_def outputs_skip)
next
  case (Some bonds)
  with assms have fit: "\<forall>b\<in>set bonds. in_range (length (configuration a)) (fst b)
                          \<and> in_range (length (configuration a)) (snd b)"
    by (simp add: arrays_fit_def Let_def bonds_of_def list_all_iff)
  have "outputs (for_each bonds (draw_bond fmt_f a (effective_colors a)))
          (concat (map (expected_bond_lines fmt_f a) bonds))"
    by (rule outputs_for_each) (use fit assms in \<open>auto intro: draw_bond_outputs\<close>)
  then show ?thesis using Some by (simp add: bonds_of_def)
qed

lemma particles_outputs:
  assumes "arrays_fit a" and "types_given_if_needed a"
  shows "outputs (for_each (range_len (configuration a)) (draw_particle fmt_f a (effective_colors a)))
           (concat (map (expected_particle_lines fmt_f a) [0..<length (configuration a)]))"
proof -
  have "outputs (for_each [0..<length (configuration a)]
                   (\<lambda>i. draw_particle fmt_f a (effective_colors a) (int i)))
          (concat (map (expected_particle_lines fmt_f a) [0..<length (configuration a)]))"
    by (rule outputs_for_each) (simp add: draw_particle_outputs assms)
  then show ?thesis
    by (simp add: range_len_def for_each_def comp_def)
qed

lemma reset_outputs:
  "outputs (if reset_view a
            then block [send ''display resetview\<newline>'', send ''scale by 1.3\<newline>'']
            else skip)
     (if reset_view a then reset_lines else [])"
proof (cases "reset_view a")
  case True
  have "outputs (block [send ''display resetview\<newline>'', send ''scale by 1.3\<newline>''])
          ([''display resetview\<newline>''] @ [''scale by 1.3\<newline>''] @ [])"
    by (intro outputs_block_Cons outputs_block_Nil outputs_send)
  then show ?thesis using True by (simp add: reset_lines_def)
next
  case False
  then show ?thesis by (simp add: outputs_skip)
qed

lemma draw_atomic_outputs:
  assumes "arrays_fit a" and "types_given_if_needed a"
  shows "outputs (draw_atomic fmt_f a) (expected_lines fmt_f a)"
proof -
  have "outputs (draw_atomic fmt_f a)
          ([''axes location off\<newline>''] @ [''display projection orthographic\<newline>'']
           @ [''display resize 800 800\<newline>''] @ [''draw delete all\<newline>'']
           @ [''draw materials on\<newline>''] @ [''draw material \"HardPlastic\"\<newline>'']
           @ concat (map (expected_bond_lines fmt_f a) (bonds_of a))
           @ concat (map (expected_particle_lines fmt_f a) [0..<length (configuration a)])
           @ (if reset_view a then reset_lines else []) @ [])"
    unfolding draw_atomic_def
    by (intro outputs_block_Cons outputs_block_Nil outputs_send bonds_outputs
          particles_outputs reset_outputs assms)
  then show ?thesis
    by (simp add: expected_lines_def setup_lines_def)
qed

lemma draw_atomic_sends:
  assumes "arrays_fit a" and "types_given_if_needed a" and "usable s"
  shows "draw_atomic fmt_f a s = (None, s\<lparr>trace := trace s @ map Sent (expected_lines fmt_f a)\<rparr>)"
  using draw_atomic_outputs [OF assms(1,2)] assms(3) by (simp add: outputs_def)

end
